theory Spec2Isabelle
  imports Main "HOL-Library.Word" "HOL-Library.Char_ord" "HOL-Library.List_Lexorder"
begin

section \<open>Entries, values and measurements\<close>

text \<open>
  The generic entry of \<^verbatim>\<open>opmon_entry.pb.h\<close> as the two source files use it:
  \<^verbatim>\<open>OpMonContainer::add\<close> sets \<open>time\<close>, \<open>opmon_id\<close>, \<open>measurement\<close> and \<open>data\<close>;
  \<^verbatim>\<open>MonitorableObject::publish\<close> sets \<open>origin\<close> and \<open>time\<close> and reads \<open>data\<close> and
  \<open>measurement\<close>. A time stamp is a clock reading, given as a natural number. The
  \<open>data\<close> field is a protobuf map: keys are unique and their order is irrelevant.
\<close>

type_synonym ElementId = string
type_synonym OpMonId = "string list"
type_synonym OpMonLevel = nat
type_synonym Timestamp = nat

datatype OpMonValue = KIND_NOT_SET | int4_value "32 word"

record OpMonEntry =
  time :: Timestamp
  origin :: OpMonId
  opmon_id :: string
  measurement :: string
  data :: "string \<rightharpoonup> OpMonValue"

text \<open>
  A protobuf message seen through its descriptor and its reflection, as
  \<^verbatim>\<open>OpMonContainer::add\<close> reads it: the type name, the declared fields in index order
  (\<^verbatim>\<open>des.field(i)\<close> for \<^verbatim>\<open>0 <= i < des.field_count()\<close>) and the getter
  \<^verbatim>\<open>ref.GetInt32(m, field_p)\<close>.
\<close>

datatype CppType =
    CPPTYPE_INT32 | CPPTYPE_INT64 | CPPTYPE_UINT32 | CPPTYPE_UINT64 | CPPTYPE_DOUBLE
  | CPPTYPE_FLOAT | CPPTYPE_BOOL | CPPTYPE_ENUM | CPPTYPE_STRING | CPPTYPE_MESSAGE

record FieldDescriptor =
  name :: string
  is_repeated :: bool
  cpp_type :: CppType

record Message =
  GetTypeName :: string
  descriptor_fields :: "FieldDescriptor list"
  GetInt32 :: "FieldDescriptor \<Rightarrow> 32 word"

section \<open>OpMonContainer\<close>

record OpMonContainer =
  m_entries :: "OpMonEntry list"

text \<open>
  The body of the \<^verbatim>\<open>for\<close> loop of \<^verbatim>\<open>OpMonContainer::add\<close> for one field: a repeated
  field is skipped by \<^verbatim>\<open>continue\<close>; otherwise the \<^verbatim>\<open>switch\<close> on the C++ type sets the
  value and keeps \<open>success\<close> for \<^verbatim>\<open>CPPTYPE_INT32\<close> only, and the value is stored under the
  field's name when \<open>success\<close> holds.
\<close>

definition add_field :: "Message \<Rightarrow> FieldDescriptor \<Rightarrow> OpMonEntry \<Rightarrow> OpMonEntry" where
  "add_field m field_p entry =
     (if is_repeated field_p then entry
      else
        let value = KIND_NOT_SET;
            (value, success) =
              (case cpp_type field_p of
                 CPPTYPE_INT32 \<Rightarrow> (int4_value (GetInt32 m field_p), True)
               | _ \<Rightarrow> (value, False))
        in if success then entry\<lparr>data := (data entry)(name field_p \<mapsto> value)\<rparr> else entry)"

text \<open>The loop over the field indices \<open>0, \<dots>, count - 1\<close>, as a recursion over the fields.\<close>

fun add_loop :: "Message \<Rightarrow> FieldDescriptor list \<Rightarrow> OpMonEntry \<Rightarrow> OpMonEntry" where
  "add_loop m [] entry = entry"
| "add_loop m (field_p # rest) entry = add_loop m rest (add_field m field_p entry)"

text \<open>
  \<^verbatim>\<open>OpMonContainer::add\<close>. The time stamp read from the clock is an argument. The test
  \<^verbatim>\<open>entry.data().size() > 0\<close> on the map is \<open>dom (data entry) \<noteq> {}\<close>.
\<close>

definition add :: "Timestamp \<Rightarrow> Message \<Rightarrow> string \<Rightarrow> OpMonContainer \<Rightarrow> OpMonContainer" where
  "add timestamp m ident this =
     (let entry = \<lparr>time = timestamp, origin = [], opmon_id = ident,
                   measurement = GetTypeName m, data = Map.empty\<rparr>;
          entry = add_loop m (descriptor_fields m) entry
      in if dom (data entry) \<noteq> {}
         then this\<lparr>m_entries := m_entries this @ [entry]\<rparr>
         else this)"

text \<open>A container starts empty and is changed by \<open>add\<close> only: a run of calls of \<open>add\<close>.\<close>

fun add_all :: "(Timestamp \<times> Message \<times> string) list \<Rightarrow> OpMonContainer \<Rightarrow> OpMonContainer" where
  "add_all [] this = this"
| "add_all ((timestamp, m, ident) # calls) this = add_all calls (add timestamp m ident this)"

text \<open>The fields that the loop maps: not repeated, and of a C++ type the \<^verbatim>\<open>switch\<close> knows.\<close>

definition mapped_field :: "FieldDescriptor \<Rightarrow> bool" where
  "mapped_field field_p = (\<not> is_repeated field_p \<and> cpp_type field_p = CPPTYPE_INT32)"

section \<open>Monitorable objects\<close>

subsection \<open>Weak references, issues and observable effects\<close>

text \<open>
  A \<^verbatim>\<open>std::weak_ptr\<close> in the registry of a node, by what becomes of the object it
  refers to while a traversal runs. The object is destroyed already (\<open>Expired\<close>); or it
  is alive and an owner outside the registry keeps it (\<open>Live\<close>); or it is alive when the
  traversal reaches it and its last owner outside the registry lets go of it before the
  traversal is over, as a hook can do (\<open>Orphaned\<close>): then only a shared pointer obtained
  by \<open>lock\<close> keeps it alive, and it is destroyed when that pointer goes out of scope.
  The registry of a node refers to each child once and the object graph is a tree, so
  the referred object is kept inside the reference.

  \<open>lock\<close> gives the shared pointer (\<open>None\<close> is the null pointer). \<open>expired\<close> is the answer
  of \<^verbatim>\<open>expired()\<close> as long as the object is alive or was destroyed before: at the
  traversal, and while a shared pointer obtained from the reference is in scope.
  \<open>pointing_to\<close> is the reference after its object was changed through the pointer.
  \<open>unlock\<close> is the reference once the shared pointer obtained from it has gone out of
  scope: an object that has lost its owner is destroyed and the reference is expired.
\<close>

type_synonym CustomOrigin = "string \<rightharpoonup> string"

datatype 'a weak_ptr = Expired | Live 'a | Orphaned 'a

fun lock :: "'a weak_ptr \<Rightarrow> 'a option" where
  "lock Expired = None"
| "lock (Live p) = Some p"
| "lock (Orphaned p) = Some p"

fun expired :: "'a weak_ptr \<Rightarrow> bool" where
  "expired Expired = True"
| "expired (Live p) = False"
| "expired (Orphaned p) = False"

fun pointing_to :: "'a weak_ptr \<Rightarrow> 'a \<Rightarrow> 'a weak_ptr" where
  "pointing_to Expired p = Expired"
| "pointing_to (Live q) p = Live p"
| "pointing_to (Orphaned q) p = Orphaned p"

fun unlock :: "'a weak_ptr \<Rightarrow> 'a weak_ptr" where
  "unlock Expired = Expired"
| "unlock (Live p) = Live p"
| "unlock (Orphaned p) = Expired"

text \<open>
  An \<^verbatim>\<open>ers::Issue\<close> owns its cause, which is an issue again or null: a finite chain.
  \<open>thrown\<close> is what the data-generation hook can throw, by the \<^verbatim>\<open>catch\<close> clause of
  \<^verbatim>\<open>collect\<close> that takes it: an issue, another \<^verbatim>\<open>std::exception\<close>, or anything else.
\<close>

datatype Issue = Issue (what: string) (cause: "Issue option")

datatype thrown = Thrown_Issue Issue | Thrown_std_exception string | Thrown_other

text \<open>
  The issues that the source reports or throws, and the effects of a call that are
  visible outside the objects: a report through \<^verbatim>\<open>ers::warning\<close> or \<^verbatim>\<open>ers::error\<close>,
  and an entry handed to the facility. The \<^verbatim>\<open>TLOG\<close> trace messages are left out.
\<close>

datatype diagnostic =
    NonUniqueNodeName ElementId OpMonId
  | EntryWithNoData string
  | OpMonPublishFailure
  | ErrorWhileCollecting OpMonId thrown

datatype event = Ers_warning diagnostic | Ers_error diagnostic | Facility_publish OpMonEntry

text \<open>
  Modelled from the spec: the facility is declared in a header that is not among the
  sources. Its contract is that \<^verbatim>\<open>publish(entry)\<close> either delivers the entry or fails with
  a publish failure; \<open>True\<close> is delivery, \<open>False\<close> the \<^verbatim>\<open>OpMonPublishFailure\<close>. The
  default facility is a no-op that accepts every entry.
\<close>

type_synonym OpMonFacility = "OpMonEntry \<Rightarrow> bool"

definition NullOpMonFacility :: OpMonFacility where
  "NullOpMonFacility = (\<lambda>e. True)"

subsection \<open>The object and the tree\<close>

text \<open>
  The data members of \<^verbatim>\<open>MonitorableObject\<close> that the source file uses, the registry
  \<^verbatim>\<open>m_nodes\<close> apart. The types of the counters come from the protobuf schema, which is not
  among the sources: the model is polymorphic in them, \<open>'c\<close> for the counts and \<open>'t\<close> for
  the times, and asks of them only \<open>0\<close>, \<open>1\<close> and an associative \<open>+\<close> (class
  \<open>semiring_1\<close>; \<open>32 word\<close>, \<open>64 word\<close> and \<open>nat\<close> are instances).
\<close>

record ('c, 't) MonitorableObject =
  m_opmon_name :: ElementId
  m_parent_id :: OpMonId
  m_opmon_level :: OpMonLevel
  m_facility :: OpMonFacility
  m_published_counter :: 'c
  m_ignored_counter :: 'c
  m_error_counter :: 'c
  m_cpu_us_counter :: 't

text \<open>
  Modelled from the spec: \<^verbatim>\<open>get_opmon_id\<close> is declared in the header, which is not among
  the sources. The identifier of a node is hierarchical: the identifier of the parent
  followed by the node's own name.
\<close>

definition get_opmon_id :: "('c, 't) MonitorableObject \<Rightarrow> OpMonId" where
  "get_opmon_id this = m_parent_id this @ [m_opmon_name this]"

record ('c, 't) MonitoringTreeInfo =
  n_registered_nodes :: 'c
  n_publishing_nodes :: 'c
  n_invalid_links :: 'c
  n_published_measurements :: 'c
  n_ignored_measurements :: 'c
  n_errors :: 'c
  cpu_elapsed_time_us :: 't
  clockwall_elapsed_time_us :: 't

text \<open>
  A node of the tree: the object, the behaviour of its virtual \<^verbatim>\<open>generate_opmon_data\<close>,
  the duration in microseconds that the clock measures for its call of \<^verbatim>\<open>collect\<close>, and
  the registry \<^verbatim>\<open>m_nodes\<close>. The hook is given the object and returns the object after the
  calls of \<open>publish\<close> it made, the effects of these calls, and what it threw, if
  anything. The registry is a \<^verbatim>\<open>std::map\<close>: an association list in key order.
\<close>

type_synonym ('c, 't) hook =
  "('c, 't) MonitorableObject \<Rightarrow> ('c, 't) MonitorableObject \<times> event list \<times> thrown option"

datatype ('c, 't) node =
  Node (self: "('c, 't) MonitorableObject")
       (generate_opmon_data: "('c, 't) hook")
       (elapsed_us: 't)
       (m_nodes: "(ElementId \<times> ('c, 't) node weak_ptr) list")

subsection \<open>publish\<close>

text \<open>
  \<^verbatim>\<open>MonitorableObject::publish\<close>. \<^verbatim>\<open>publishable_metric\<close> and \<^verbatim>\<open>to_entry\<close> are declared in
  headers that are not among the sources: they are parameters. The clock gives
  \<open>timestamp\<close> at the start of the call, and \<open>duration\<close> is the difference of
  \<^verbatim>\<open>stop_time\<close> and \<^verbatim>\<open>start_time\<close> in microseconds, read only when the call reaches its
  end. The result is the object with its counters updated and the effects of the call.
\<close>

definition publish ::
  "(OpMonLevel \<Rightarrow> OpMonLevel \<Rightarrow> bool) \<Rightarrow> (Message \<Rightarrow> CustomOrigin \<Rightarrow> OpMonEntry) \<Rightarrow>
   Timestamp \<Rightarrow> 't \<Rightarrow> Message \<Rightarrow> CustomOrigin \<Rightarrow> OpMonLevel \<Rightarrow>
   ('c::semiring_1, 't::semiring_1) MonitorableObject \<Rightarrow>
   ('c, 't) MonitorableObject \<times> event list" where
  "publish publishable_metric to_entry timestamp duration m co l this =
     (if \<not> publishable_metric l (m_opmon_level this)
      then (this\<lparr>m_ignored_counter := m_ignored_counter this + 1\<rparr>, [])
      else
        let e = to_entry m co
        in if dom (data e) = {}
           then (this, [Ers_warning (EntryWithNoData (measurement e))])
           else
             let e = e\<lparr>origin := get_opmon_id this\<rparr>;
                 e = e\<lparr>time := timestamp\<rparr>;
                 (this, events) =
                   (if m_facility this e
                    then (this\<lparr>m_published_counter := m_published_counter this + 1\<rparr>,
                          [Facility_publish e])
                    else (this\<lparr>m_error_counter := m_error_counter this + 1\<rparr>,
                          [Facility_publish e, Ers_error OpMonPublishFailure]))
             in (this\<lparr>m_cpu_us_counter := m_cpu_us_counter this + duration\<rparr>, events))"

subsection \<open>collect\<close>

text \<open>
  The \<^verbatim>\<open>while\<close> loop of the first \<^verbatim>\<open>catch\<close> clause: one increment of the error counter
  for each cause, down the chain.
\<close>

fun cause_loop :: "Issue option \<Rightarrow> 'c::semiring_1 \<Rightarrow> 'c" where
  "cause_loop None error_counter = error_counter"
| "cause_loop (Some (Issue w cause_ptr)) error_counter = cause_loop cause_ptr (error_counter + 1)"

text \<open>
  The \<^verbatim>\<open>try\<close> block of \<^verbatim>\<open>collect\<close> with its three \<^verbatim>\<open>catch\<close> clauses. The last clause
  catches everything, so the block has no exceptional outcome.
\<close>

definition try_generate_opmon_data ::
  "('c::semiring_1, 't) hook \<Rightarrow> ('c, 't) MonitorableObject \<Rightarrow>
   ('c, 't) MonitorableObject \<times> event list" where
  "try_generate_opmon_data hook this =
     (let (this, events, thrown) = hook this
      in case thrown of
           None \<Rightarrow> (this, events)
         | Some (Thrown_Issue i) \<Rightarrow>
             (this\<lparr>m_error_counter := cause_loop (cause i) (m_error_counter this + 1)\<rparr>,
              events @ [Ers_error (ErrorWhileCollecting (get_opmon_id this) (Thrown_Issue i))])
         | Some (Thrown_std_exception e) \<Rightarrow>
             (this\<lparr>m_error_counter := m_error_counter this + 1\<rparr>,
              events @ [Ers_error (ErrorWhileCollecting (get_opmon_id this)
                                     (Thrown_std_exception e))])
         | Some Thrown_other \<Rightarrow>
             (this\<lparr>m_error_counter := m_error_counter this + 1\<rparr>,
              events @ [Ers_error (ErrorWhileCollecting (get_opmon_id this) Thrown_other)]))"

text \<open>A default-constructed \<^verbatim>\<open>MonitoringTreeInfo\<close>: every field is zero.\<close>

definition new_info :: "('c::semiring_1, 't::semiring_1) MonitoringTreeInfo" where
  "new_info = \<lparr>n_registered_nodes = 0, n_publishing_nodes = 0, n_invalid_links = 0,
                n_published_measurements = 0, n_ignored_measurements = 0, n_errors = 0,
                cpu_elapsed_time_us = 0, clockwall_elapsed_time_us = 0\<rparr>"

text \<open>
  The statements of \<^verbatim>\<open>collect\<close> between the \<^verbatim>\<open>try\<close> block and the lock: each counter is
  exchanged with zero and its old value goes into the record.
\<close>

definition exchange_counters ::
  "('c::{semiring_1, ord}, 't::semiring_1) MonitoringTreeInfo \<Rightarrow> ('c, 't) MonitorableObject \<Rightarrow>
   ('c, 't) MonitoringTreeInfo \<times> ('c, 't) MonitorableObject" where
  "exchange_counters info this =
     (let info = info\<lparr>n_published_measurements := m_published_counter this\<rparr>;
          this = this\<lparr>m_published_counter := 0\<rparr>;
          info = info\<lparr>n_ignored_measurements := m_ignored_counter this\<rparr>;
          this = this\<lparr>m_ignored_counter := 0\<rparr>;
          info = info\<lparr>n_errors := m_error_counter this\<rparr>;
          this = this\<lparr>m_error_counter := 0\<rparr>;
          info = (if 0 < n_published_measurements info
                  then info\<lparr>n_publishing_nodes := 1\<rparr> else info);
          info = info\<lparr>cpu_elapsed_time_us := m_cpu_us_counter this\<rparr>;
          this = this\<lparr>m_cpu_us_counter := 0\<rparr>
      in (info, this))"

text \<open>The seven assignments that follow the recursive call in the loop over the children.\<close>

definition merge_child_info ::
  "('c::semiring_1, 't::semiring_1) MonitoringTreeInfo \<Rightarrow> ('c, 't) MonitoringTreeInfo \<Rightarrow>
   ('c, 't) MonitoringTreeInfo" where
  "merge_child_info info child_info =
     (let info = info\<lparr>n_registered_nodes :=
                        n_registered_nodes info + n_registered_nodes child_info\<rparr>;
          info = info\<lparr>n_publishing_nodes :=
                        n_publishing_nodes info + n_publishing_nodes child_info\<rparr>;
          info = info\<lparr>n_invalid_links := n_invalid_links info + n_invalid_links child_info\<rparr>;
          info = info\<lparr>n_published_measurements :=
                        n_published_measurements info + n_published_measurements child_info\<rparr>;
          info = info\<lparr>n_ignored_measurements :=
                        n_ignored_measurements info + n_ignored_measurements child_info\<rparr>;
          info = info\<lparr>n_errors := n_errors info + n_errors child_info\<rparr>;
          info = info\<lparr>cpu_elapsed_time_us :=
                        cpu_elapsed_time_us info + cpu_elapsed_time_us child_info\<rparr>
      in info)"

text \<open>
  \<^verbatim>\<open>MonitorableObject::collect\<close> and its loop over \<^verbatim>\<open>m_nodes\<close>. The result is the record,
  the node after the call (counters reset, registry pruned, children collected) and the
  effects in the order they happen. The local counter \<^verbatim>\<open>n_invalid_links\<close> is an
  \<^verbatim>\<open>unsigned int\<close>, a 32-bit word; \<^verbatim>\<open>m_nodes.size()\<close> and the local counter are converted
  to the type of the record's fields. In the loop the shared pointer \<open>ptr\<close> is in scope
  until the end of the body: the reference of a child that was locked is not expired at
  the test that follows, whatever its owner does during the recursive call, and its
  entry stays in the registry; when the body ends the pointer is released (\<open>unlock\<close>),
  and the entry of a child that has lost its owner is expired from then on.
\<close>

function collect ::
    "('c::{semiring_1, ord}, 't::semiring_1) node \<Rightarrow>
     ('c, 't) MonitoringTreeInfo \<times> ('c, 't) node \<times> event list"
  and collect_loop ::
    "(ElementId \<times> ('c, 't) node weak_ptr) list \<Rightarrow> ('c, 't) MonitoringTreeInfo \<Rightarrow> 32 word \<Rightarrow>
     ('c, 't) MonitoringTreeInfo \<times> 32 word \<times> (ElementId \<times> ('c, 't) node weak_ptr) list \<times>
     event list"
where
  "collect (Node this hook elapsed nodes) =
     (let info = new_info\<lparr>n_invalid_links := 0\<rparr>;
          (this, events) = try_generate_opmon_data hook this;
          (info, this) = exchange_counters info this;
          info = info\<lparr>n_registered_nodes := of_nat (length nodes)\<rparr>;
          (info, n_invalid, nodes, child_events) = collect_loop nodes info 0;
          info = info\<lparr>n_invalid_links := n_invalid_links info + of_nat (unat n_invalid)\<rparr>;
          info = info\<lparr>clockwall_elapsed_time_us := elapsed\<rparr>
      in (info, Node this hook elapsed nodes, events @ child_events))"
| "collect_loop [] info n_invalid = (info, n_invalid, [], [])"
| "collect_loop ((key, wp) # rest) info n_invalid =
     (let (info, wp, events) =
            (case lock wp of
               Some ptr \<Rightarrow>
                 let (child_info, ptr, child_events) = collect ptr
                 in (merge_child_info info child_info, pointing_to wp ptr, child_events)
             | None \<Rightarrow> (info, wp, []))
      in if expired wp
         then let (info, n_invalid, nodes, rest_events) = collect_loop rest info (n_invalid + 1)
              in (info, n_invalid, nodes, events @ rest_events)
         else let (info, n_invalid, nodes, rest_events) = collect_loop rest info n_invalid
              in (info, n_invalid, (key, unlock wp) # nodes, events @ rest_events))"
  by pat_completeness auto
termination
proof (relation "measure (\<lambda>x. case x of
          Inl n \<Rightarrow> size n
        | Inr (nodes, info, n_invalid) \<Rightarrow>
            size_list (size_prod (\<lambda>_. 0) (size_weak_ptr size)) nodes)", goal_cases)
  case (3 key wp rest info n_invalid ptr)
  then show ?case by (cases wp) auto
qed auto

subsection \<open>Registration\<close>


text \<open>The assignment \<^verbatim>\<open>m[k] = v\<close> of a \<^verbatim>\<open>std::map\<close>: overwrite the key or insert it in order.\<close>

fun map_assign :: "'k::linorder \<Rightarrow> 'v \<Rightarrow> ('k \<times> 'v) list \<Rightarrow> ('k \<times> 'v) list" where
  "map_assign k v [] = [(k, v)]"
| "map_assign k v ((k', v') # rest) =
     (if k = k' then (k, v) # rest
      else if k < k' then (k, v) # (k', v') # rest
      else (k', v') # map_assign k v rest)"


subsection \<open>Measures of a tree\<close>

text \<open>The children of a registry whose references lock, in registry order.\<close>

fun live_children :: "(ElementId \<times> 'a weak_ptr) list \<Rightarrow> 'a list" where
  "live_children [] = []"
| "live_children ((key, wp) # rest) =
     (case lock wp of Some p \<Rightarrow> p # live_children rest | None \<Rightarrow> live_children rest)"

text \<open>The references whose object loses its last owner while the traversal runs.\<close>

fun orphaned :: "'a weak_ptr \<Rightarrow> bool" where
  "orphaned Expired = False"
| "orphaned (Live p) = False"
| "orphaned (Orphaned p) = True"

text \<open>
  A reference after the traversal: a child that locks has been collected, and the shared
  pointer that held it is gone.
\<close>

definition after_collect ::
  "('c::{semiring_1, ord}, 't::semiring_1) node weak_ptr \<Rightarrow> ('c, 't) node weak_ptr" where
  "after_collect wp =
     (case lock wp of
        Some p \<Rightarrow> unlock (pointing_to wp (fst (snd (collect p))))
      | None \<Rightarrow> wp)"

text \<open>
  The number of registry entries, expired or not, of a node and of all the live nodes
  below it; and the number of live nodes of the tree, the root included.
\<close>

function registered_links :: "('c, 't) node \<Rightarrow> nat" where
  "registered_links (Node this hook elapsed nodes) =
     length nodes + sum_list (map registered_links (live_children nodes))"
  by pat_completeness auto
termination
proof (relation "measure size", goal_cases)
  case 1
  show ?case by simp
next
  case (2 this hook elapsed nodes p)
  have "size q < Suc (size_list (size_prod (\<lambda>_. 0) (size_weak_ptr size)) ns)"
    if "q \<in> set (live_children ns)"
    for ns :: "(ElementId \<times> ('c, 't) node weak_ptr) list" and q
    using that by (induction ns) (auto split: option.splits elim!: lock.elims)
  with 2 show ?case by auto
qed

function live_nodes :: "('c, 't) node \<Rightarrow> nat" where
  "live_nodes (Node this hook elapsed nodes) = 1 + sum_list (map live_nodes (live_children nodes))"
  by pat_completeness auto
termination
proof (relation "measure size", goal_cases)
  case 1
  show ?case by simp
next
  case (2 this hook elapsed nodes p)
  have "size q < Suc (size_list (size_prod (\<lambda>_. 0) (size_weak_ptr size)) ns)"
    if "q \<in> set (live_children ns)"
    for ns :: "(ElementId \<times> ('c, 't) node weak_ptr) list" and q
    using that by (induction ns) (auto split: option.splits elim!: lock.elims)
  with 2 show ?case by auto
qed

text \<open>The number of links of a cause chain: the issue itself and each of its causes.\<close>

fun chain_length :: "Issue \<Rightarrow> nat" where
  "chain_length (Issue w c) = 1 + (case c of None \<Rightarrow> 0 | Some i \<Rightarrow> chain_length i)"

subsection \<open>Example objects\<close>

text \<open>
  Concrete inputs with 32-bit counts and 64-bit times: an object that has published
  nothing, a hook that does nothing, a measurement with one \<^verbatim>\<open>int32\<close> field, one with
  a repeated field only, and a flattening function that runs the loop of
  \<open>OpMonContainer::add\<close>.
\<close>

abbreviation idle_object :: "(32 word, 64 word) MonitorableObject" where
  "idle_object \<equiv>
     \<lparr>m_opmon_name = ''node'', m_parent_id = [], m_opmon_level = 1,
      m_facility = NullOpMonFacility, m_published_counter = 0, m_ignored_counter = 0,
      m_error_counter = 0, m_cpu_us_counter = 0\<rparr>"

abbreviation quiet_hook :: "(32 word, 64 word) hook" where
  "quiet_hook \<equiv> (\<lambda>this. (this, [], None))"

abbreviation x5 :: Message where
  "x5 \<equiv> \<lparr>GetTypeName = ''Info'',
          descriptor_fields = [\<lparr>name = ''x'', is_repeated = False, cpp_type = CPPTYPE_INT32\<rparr>],
          GetInt32 = (\<lambda>_. 5)\<rparr>"

abbreviation hist_only :: Message where
  "hist_only \<equiv> \<lparr>GetTypeName = ''Hist'',
          descriptor_fields = [\<lparr>name = ''h'', is_repeated = True, cpp_type = CPPTYPE_INT32\<rparr>],
          GetInt32 = (\<lambda>_. 5)\<rparr>"

abbreviation flatten :: "Message \<Rightarrow> CustomOrigin \<Rightarrow> OpMonEntry" where
  "flatten \<equiv> (\<lambda>m co. add_loop m (descriptor_fields m)
       \<lparr>time = 0, origin = [], opmon_id = [], measurement = GetTypeName m, data = Map.empty\<rparr>)"

section \<open>Properties of OpMonContainer\<close>

lemma add_field_data:
  "data (add_field m f e) =
     (if mapped_field f then (data e)(name f \<mapsto> int4_value (GetInt32 m f)) else data e)"
  by (cases "cpp_type f") (simp_all add: add_field_def mapped_field_def)

lemma dom_add_loop:
  "dom (data (add_loop m fs e)) = dom (data e) \<union> name ` {f \<in> set fs. mapped_field f}"
  by (induction fs arbitrary: e) (auto simp: add_field_data)

lemma add_loop_no_data:
  "dom (data (add_loop m fs e)) = {} \<longleftrightarrow>
     dom (data e) = {} \<and> (\<forall>f \<in> set fs. \<not> mapped_field f)"
  unfolding dom_add_loop by blast

lemma add_entries:
  "m_entries (add ts m ident c) = m_entries c \<or>
   (m_entries (add ts m ident c) =
      m_entries c @ [add_loop m (descriptor_fields m)
        \<lparr>time = ts, origin = [], opmon_id = ident, measurement = GetTypeName m,
         data = Map.empty\<rparr>] \<and>
    (\<exists>f \<in> set (descriptor_fields m). mapped_field f))"
  by (auto simp: add_def Let_def add_loop_no_data simp del: dom_eq_empty_conv)

lemma add_keeps_nonempty:
  assumes "\<forall>e \<in> set (m_entries c). dom (data e) \<noteq> {}"
  shows "\<forall>e \<in> set (m_entries (add ts m ident c)). dom (data e) \<noteq> {}"
  using assms by (auto simp: add_def Let_def simp del: dom_eq_empty_conv)

lemma add_all_keeps_nonempty:
  assumes "\<forall>e \<in> set (m_entries c). dom (data e) \<noteq> {}"
  shows "\<forall>e \<in> set (m_entries (add_all calls c)). dom (data e) \<noteq> {}"
  using assms
proof (induction calls arbitrary: c)
  case Nil
  then show ?case by simp
next
  case (Cons call calls)
  obtain ts m ident where call: "call = (ts, m, ident)" by (cases call)
  from Cons.prems have "\<forall>e \<in> set (m_entries (add ts m ident c)). dom (data e) \<noteq> {}"
    by (rule add_keeps_nonempty)
  then have "\<forall>e \<in> set (m_entries (add_all calls (add ts m ident c))). dom (data e) \<noteq> {}"
    by (rule Cons.IH)
  then show ?case unfolding call by (simp del: dom_eq_empty_conv)
qed

text \<open>
  C8. In the entry that \<open>add\<close> builds from a measurement, every key of the data is the
  name of a field that is not repeated; so, the field names of a protobuf descriptor
  being pairwise distinct, no repeated field of the measurement is a key, whatever its
  C++ type is. The container gains this entry or nothing.
\<close>

theorem repeated_field_never_in_data:
  "(let entry = add_loop m (descriptor_fields m)
                  \<lparr>time = ts, origin = [], opmon_id = ident, measurement = GetTypeName m,
                   data = Map.empty\<rparr>
    in (\<forall>k \<in> dom (data entry).
          \<exists>g \<in> set (descriptor_fields m). name g = k \<and> \<not> is_repeated g)
     \<and> (distinct (map name (descriptor_fields m)) \<longrightarrow>
          (\<forall>f \<in> set (descriptor_fields m). is_repeated f \<longrightarrow> name f \<notin> dom (data entry)))
     \<and> (m_entries (add ts m ident c) = m_entries c
          \<or> m_entries (add ts m ident c) = m_entries c @ [entry]))"
proof -
  let ?entry = "add_loop m (descriptor_fields m)
                  \<lparr>time = ts, origin = [], opmon_id = ident, measurement = GetTypeName m,
                   data = Map.empty\<rparr>"
  have keys: "\<forall>k \<in> dom (data ?entry).
          \<exists>g \<in> set (descriptor_fields m). name g = k \<and> \<not> is_repeated g"
    by (auto simp: dom_add_loop mapped_field_def)
  have rep: "name f \<notin> dom (data ?entry)"
    if "distinct (map name (descriptor_fields m))" "f \<in> set (descriptor_fields m)"
      "is_repeated f"
    for f
  proof
    assume "name f \<in> dom (data ?entry)"
    with keys obtain g
      where g: "g \<in> set (descriptor_fields m)" "name g = name f" "\<not> is_repeated g"
      by blast
    from that(1) g(1) that(2) g(2) have "g = f"
      by (meson distinct_map inj_onD)
    with g(3) that(3) show False by simp
  qed
  from add_entries [of ts m ident c]
  have "m_entries (add ts m ident c) = m_entries c
          \<or> m_entries (add ts m ident c) = m_entries c @ [?entry]"
    by blast
  with keys rep show ?thesis unfolding Let_def by blast
qed

theorem repeated_field_never_in_data_witness:
  "name \<lparr>name = ''hist'', is_repeated = True, cpp_type = CPPTYPE_INT32\<rparr>
     \<notin> dom (data (add_loop
          \<lparr>GetTypeName = ''Info'',
           descriptor_fields =
             [\<lparr>name = ''x'', is_repeated = False, cpp_type = CPPTYPE_INT32\<rparr>,
              \<lparr>name = ''hist'', is_repeated = True, cpp_type = CPPTYPE_INT32\<rparr>],
           GetInt32 = (\<lambda>_. 5)\<rparr>
          [\<lparr>name = ''x'', is_repeated = False, cpp_type = CPPTYPE_INT32\<rparr>,
           \<lparr>name = ''hist'', is_repeated = True, cpp_type = CPPTYPE_INT32\<rparr>]
          \<lparr>time = 0, origin = [], opmon_id = ''id'', measurement = ''Info'',
           data = Map.empty\<rparr>))"
  using repeated_field_never_in_data
    [of "\<lparr>GetTypeName = ''Info'',
           descriptor_fields =
             [\<lparr>name = ''x'', is_repeated = False, cpp_type = CPPTYPE_INT32\<rparr>,
              \<lparr>name = ''hist'', is_repeated = True, cpp_type = CPPTYPE_INT32\<rparr>],
           GetInt32 = (\<lambda>_. 5)\<rparr>"
        0 "''id''" "\<lparr>m_entries = []\<rparr>"]
  by (simp add: Let_def)

text \<open>
  C9. A measurement none of whose fields is mapped (not repeated and of a C++ type the
  \<^verbatim>\<open>switch\<close> knows) leaves the container as it was, and every entry of a container built
  by calls of \<open>add\<close> from the empty container has a non-empty data map.
\<close>

theorem add_without_mapped_field:
  "((\<forall>f \<in> set (descriptor_fields m). \<not> mapped_field f) \<longrightarrow> add ts m ident c = c)
   \<and> (\<forall>e \<in> set (m_entries (add_all calls \<lparr>m_entries = []\<rparr>)). dom (data e) \<noteq> {})"
proof
  show "(\<forall>f \<in> set (descriptor_fields m). \<not> mapped_field f) \<longrightarrow> add ts m ident c = c"
    by (auto simp: add_def Let_def add_loop_no_data simp del: dom_eq_empty_conv)
  show "\<forall>e \<in> set (m_entries (add_all calls \<lparr>m_entries = []\<rparr>)). dom (data e) \<noteq> {}"
    by (rule add_all_keeps_nonempty) simp
qed

theorem add_without_mapped_field_witness:
  "add 7 \<lparr>GetTypeName = ''Info'',
           descriptor_fields =
             [\<lparr>name = ''hist'', is_repeated = True, cpp_type = CPPTYPE_INT32\<rparr>,
              \<lparr>name = ''label'', is_repeated = False, cpp_type = CPPTYPE_STRING\<rparr>],
           GetInt32 = (\<lambda>_. 5)\<rparr> ''id'' \<lparr>m_entries = []\<rparr> = \<lparr>m_entries = []\<rparr>
   \<and> map (\<lambda>e. dom (data e)) (m_entries (add_all [(7, x5, ''id'')] \<lparr>m_entries = []\<rparr>))
       = [{''x''}]"
  using add_without_mapped_field
    [of "\<lparr>GetTypeName = ''Info'',
           descriptor_fields =
             [\<lparr>name = ''hist'', is_repeated = True, cpp_type = CPPTYPE_INT32\<rparr>,
              \<lparr>name = ''label'', is_repeated = False, cpp_type = CPPTYPE_STRING\<rparr>],
           GetInt32 = (\<lambda>_. 5)\<rparr>"
        7 "''id''" "\<lparr>m_entries = []\<rparr>" "[(7, x5, ''id'')]"]
  by (simp add: mapped_field_def add_def add_field_def del: dom_eq_empty_conv)

section \<open>Properties of publish\<close>

text \<open>
  C6. When the level of the measurement fails the publishable predicate, \<open>publish\<close>
  adds one to the ignored counter and does nothing else: no entry reaches the facility,
  nothing is reported, and the published and error counters keep their values. This
  holds for every predicate, the order \<open>level \<le> configured level\<close> among them.
\<close>

theorem publish_level_suppressed:
  assumes "\<not> publishable_metric l (m_opmon_level this)"
  shows "(let (this', events) = publish publishable_metric to_entry timestamp duration m co l this
          in m_ignored_counter this' = m_ignored_counter this + 1
           \<and> events = []
           \<and> m_published_counter this' = m_published_counter this
           \<and> m_error_counter this' = m_error_counter this
           \<and> this' = this\<lparr>m_ignored_counter := m_ignored_counter this + 1\<rparr>)"
  using assms by (simp add: publish_def)

theorem publish_level_suppressed_witness:
  "publish (\<le>) flatten 100 9 x5 Map.empty 2 idle_object
     = (idle_object\<lparr>m_ignored_counter := 1\<rparr>, [])"
  using publish_level_suppressed [of "(\<le>)" 2 idle_object flatten 100 9 x5 Map.empty]
  by (simp split: prod.splits)

text \<open>
  C7. When the level passes the predicate and the flattened entry has no data,
  \<open>publish\<close> reports the warning \<open>EntryWithNoData\<close> and returns: nothing reaches the
  facility and the object, with its published, ignored and error counters, is unchanged.
\<close>

theorem publish_entry_with_no_data:
  assumes "publishable_metric l (m_opmon_level this)"
    and "dom (data (to_entry m co)) = {}"
  shows "(let (this', events) = publish publishable_metric to_entry timestamp duration m co l this
          in events = [Ers_warning (EntryWithNoData (measurement (to_entry m co)))]
           \<and> (\<forall>e. Facility_publish e \<notin> set events)
           \<and> m_published_counter this' = m_published_counter this
           \<and> m_ignored_counter this' = m_ignored_counter this
           \<and> m_error_counter this' = m_error_counter this
           \<and> this' = this)"
  using assms by (simp add: publish_def del: dom_eq_empty_conv)

theorem publish_entry_with_no_data_witness:
  "publish (\<le>) flatten 100 9 hist_only Map.empty 1 idle_object
     = (idle_object, [Ers_warning (EntryWithNoData ''Hist'')])"
  using publish_entry_with_no_data [of "(\<le>)" 1 idle_object flatten hist_only Map.empty 100 9]
  by (simp add: add_field_def split: prod.splits)

text \<open>
  C10. A call of \<open>publish\<close> that returns early, because the level fails the predicate or
  because the entry has no data, leaves \<open>m_cpu_us_counter\<close> as it was; a call that
  reaches the facility adds the measured duration to it, whether the facility delivers
  the entry or fails.
\<close>

theorem publish_cpu_us_counter:
  "m_cpu_us_counter (fst (publish publishable_metric to_entry timestamp duration m co l this)) =
     (if publishable_metric l (m_opmon_level this) \<and> dom (data (to_entry m co)) \<noteq> {}
      then m_cpu_us_counter this + duration
      else m_cpu_us_counter this)"
  by (simp add: publish_def Let_def split: prod.splits del: dom_eq_empty_conv)

theorem publish_cpu_us_counter_witness:
  "m_cpu_us_counter (fst (publish (\<le>) flatten 100 9 x5 Map.empty 2 idle_object)) = 0
   \<and> m_cpu_us_counter (fst (publish (\<le>) flatten 100 9 hist_only Map.empty 1 idle_object)) = 0
   \<and> m_cpu_us_counter (fst (publish (\<le>) flatten 100 9 x5 Map.empty 1 idle_object)) = 9
   \<and> m_cpu_us_counter (fst (publish (\<le>) flatten 100 9 x5 Map.empty 1
        (idle_object\<lparr>m_facility := (\<lambda>e. False)\<rparr>))) = 9"
  using publish_cpu_us_counter [of "(\<le>)" flatten 100 9 x5 Map.empty 2 idle_object]
    publish_cpu_us_counter [of "(\<le>)" flatten 100 9 hist_only Map.empty 1 idle_object]
    publish_cpu_us_counter [of "(\<le>)" flatten 100 9 x5 Map.empty 1 idle_object]
    publish_cpu_us_counter [of "(\<le>)" flatten 100 9 x5 Map.empty 1
        "idle_object\<lparr>m_facility := (\<lambda>e. False)\<rparr>"]
  by (simp add: add_field_def)

section \<open>Properties of collect\<close>

lemma merge_child_info_fields:
  "n_registered_nodes (merge_child_info a b) = n_registered_nodes a + n_registered_nodes b"
  "n_publishing_nodes (merge_child_info a b) = n_publishing_nodes a + n_publishing_nodes b"
  "n_invalid_links (merge_child_info a b) = n_invalid_links a + n_invalid_links b"
  "n_published_measurements (merge_child_info a b) =
     n_published_measurements a + n_published_measurements b"
  "n_ignored_measurements (merge_child_info a b) =
     n_ignored_measurements a + n_ignored_measurements b"
  "n_errors (merge_child_info a b) = n_errors a + n_errors b"
  "cpu_elapsed_time_us (merge_child_info a b) = cpu_elapsed_time_us a + cpu_elapsed_time_us b"
  "clockwall_elapsed_time_us (merge_child_info a b) = clockwall_elapsed_time_us a"
  by (simp_all add: merge_child_info_def)

lemma foldl_merge_fields:
  "n_registered_nodes (foldl merge_child_info a bs) =
     n_registered_nodes a + sum_list (map n_registered_nodes bs)"
  "n_publishing_nodes (foldl merge_child_info a bs) =
     n_publishing_nodes a + sum_list (map n_publishing_nodes bs)"
  "n_invalid_links (foldl merge_child_info a bs) =
     n_invalid_links a + sum_list (map n_invalid_links bs)"
  "n_published_measurements (foldl merge_child_info a bs) =
     n_published_measurements a + sum_list (map n_published_measurements bs)"
  "n_ignored_measurements (foldl merge_child_info a bs) =
     n_ignored_measurements a + sum_list (map n_ignored_measurements bs)"
  "n_errors (foldl merge_child_info a bs) = n_errors a + sum_list (map n_errors bs)"
  "cpu_elapsed_time_us (foldl merge_child_info a bs) =
     cpu_elapsed_time_us a + sum_list (map cpu_elapsed_time_us bs)"
  "clockwall_elapsed_time_us (foldl merge_child_info a bs) = clockwall_elapsed_time_us a"
  by (induction bs arbitrary: a; simp add: merge_child_info_fields add.assoc)+

lemma collect_loop_eq:
  "collect_loop nodes info n =
     (foldl merge_child_info info (map (\<lambda>p. fst (collect p)) (live_children nodes)),
      n + of_nat (length (filter (\<lambda>(key, wp). expired wp) nodes)),
      map (\<lambda>(key, wp). (key, after_collect wp)) (filter (\<lambda>(key, wp). \<not> expired wp) nodes),
      concat (map (\<lambda>p. snd (snd (collect p))) (live_children nodes)))"
proof (induction nodes arbitrary: info n)
  case Nil
  show ?case by simp
next
  case (Cons entry rest)
  obtain key wp where entry: "entry = (key, wp)" by (cases entry)
  show ?case
  proof (cases wp)
    case Expired
    then show ?thesis unfolding entry
      by (simp add: Cons.IH after_collect_def add.assoc add.commute)
  next
    case (Live p)
    then show ?thesis unfolding entry
      by (auto simp: Cons.IH after_collect_def split: prod.splits)
  next
    case (Orphaned p)
    then show ?thesis unfolding entry
      by (auto simp: Cons.IH after_collect_def split: prod.splits)
  qed
qed

lemma exchange_counters_info:
  "n_published_measurements (fst (exchange_counters info this)) = m_published_counter this"
  "n_ignored_measurements (fst (exchange_counters info this)) = m_ignored_counter this"
  "n_errors (fst (exchange_counters info this)) = m_error_counter this"
  "n_publishing_nodes (fst (exchange_counters info this)) =
     (if 0 < m_published_counter this then 1 else n_publishing_nodes info)"
  "cpu_elapsed_time_us (fst (exchange_counters info this)) = m_cpu_us_counter this"
  "n_registered_nodes (fst (exchange_counters info this)) = n_registered_nodes info"
  "n_invalid_links (fst (exchange_counters info this)) = n_invalid_links info"
  "clockwall_elapsed_time_us (fst (exchange_counters info this)) = clockwall_elapsed_time_us info"
  by (simp_all add: exchange_counters_def Let_def)

lemma exchange_counters_this:
  "snd (exchange_counters info this) =
     this\<lparr>m_published_counter := 0, m_ignored_counter := 0, m_error_counter := 0,
          m_cpu_us_counter := 0\<rparr>"
  by (simp add: exchange_counters_def Let_def)

lemma collect_eq:
  "collect (Node this hook elapsed nodes) =
     (let tried = try_generate_opmon_data hook this;
          exchanged = exchange_counters (new_info\<lparr>n_invalid_links := 0\<rparr>) (fst tried);
          info = foldl merge_child_info
                   ((fst exchanged)\<lparr>n_registered_nodes := of_nat (length nodes)\<rparr>)
                   (map (\<lambda>p. fst (collect p)) (live_children nodes))
      in (info\<lparr>n_invalid_links := n_invalid_links info +
                  of_nat (unat (of_nat (length (filter (\<lambda>(key, wp). expired wp) nodes)) :: 32 word)),
               clockwall_elapsed_time_us := elapsed\<rparr>,
          Node (snd exchanged) hook elapsed
            (map (\<lambda>(key, wp). (key, after_collect wp))
               (filter (\<lambda>(key, wp). \<not> expired wp) nodes)),
          snd tried @ concat (map (\<lambda>p. snd (snd (collect p))) (live_children nodes))))"
  by (simp add: collect_loop_eq Let_def split: prod.splits)

lemma of_nat_sum_list_map:
  "(of_nat (sum_list (map f xs)) :: 'a::semiring_1) = sum_list (map (\<lambda>x. of_nat (f x)) xs)"
  by (induction xs) simp_all

lemma collect_info_fields:
  fixes this :: "('c::{semiring_1, ord}, 't::semiring_1) MonitorableObject"
  defines "cis nodes \<equiv> map (\<lambda>p. fst (collect p)) (live_children nodes)"
  shows "n_registered_nodes (fst (collect (Node this hook elapsed nodes))) =
           of_nat (length nodes) + sum_list (map n_registered_nodes (cis nodes))"
    and "n_publishing_nodes (fst (collect (Node this hook elapsed nodes))) =
           (if 0 < m_published_counter (fst (try_generate_opmon_data hook this)) then 1 else 0)
           + sum_list (map n_publishing_nodes (cis nodes))"
    and "n_invalid_links (fst (collect (Node this hook elapsed nodes))) =
           sum_list (map n_invalid_links (cis nodes))
           + of_nat (unat (of_nat (length (filter (\<lambda>(key, wp). expired wp) nodes)) :: 32 word))"
    and "n_published_measurements (fst (collect (Node this hook elapsed nodes))) =
           m_published_counter (fst (try_generate_opmon_data hook this))
           + sum_list (map n_published_measurements (cis nodes))"
    and "n_ignored_measurements (fst (collect (Node this hook elapsed nodes))) =
           m_ignored_counter (fst (try_generate_opmon_data hook this))
           + sum_list (map n_ignored_measurements (cis nodes))"
    and "n_errors (fst (collect (Node this hook elapsed nodes))) =
           m_error_counter (fst (try_generate_opmon_data hook this))
           + sum_list (map n_errors (cis nodes))"
    and "cpu_elapsed_time_us (fst (collect (Node this hook elapsed nodes))) =
           m_cpu_us_counter (fst (try_generate_opmon_data hook this))
           + sum_list (map cpu_elapsed_time_us (cis nodes))"
    and "clockwall_elapsed_time_us (fst (collect (Node this hook elapsed nodes))) = elapsed"
  unfolding cis_def
  by (simp_all add: collect_eq Let_def foldl_merge_fields exchange_counters_info new_info_def
      del: collect.simps)

lemma collect_node_registry:
  "m_nodes (fst (snd (collect (Node this hook elapsed nodes)))) =
     map (\<lambda>(key, wp). (key, after_collect wp)) (filter (\<lambda>(key, wp). \<not> expired wp) nodes)"
  by (simp add: collect_eq Let_def del: collect.simps)

lemma expired_after_collect: "expired (after_collect wp) = (expired wp \<or> orphaned wp)"
  by (cases wp) (simp_all add: after_collect_def)

lemma merge_child_info_eq:
  "merge_child_info a b =
     a\<lparr>n_registered_nodes := n_registered_nodes a + n_registered_nodes b,
       n_publishing_nodes := n_publishing_nodes a + n_publishing_nodes b,
       n_invalid_links := n_invalid_links a + n_invalid_links b,
       n_published_measurements := n_published_measurements a + n_published_measurements b,
       n_ignored_measurements := n_ignored_measurements a + n_ignored_measurements b,
       n_errors := n_errors a + n_errors b,
       cpu_elapsed_time_us := cpu_elapsed_time_us a + cpu_elapsed_time_us b\<rparr>"
  by (simp add: merge_child_info_def)

lemma cause_loop_eq:
  "cause_loop c n = n + of_nat (case c of None \<Rightarrow> 0 | Some i \<Rightarrow> chain_length i)"
  by (induction c n rule: cause_loop.induct) (simp_all add: add.assoc)

lemmas run_collect =
  try_generate_opmon_data_def exchange_counters_def new_info_def merge_child_info_def Let_def

text \<open>
  C1, as the code has it. The record that \<open>collect\<close> returns for the root of a tree has
  in \<open>n_registered_nodes\<close> the number of registry entries, expired or not at the
  traversal, of the root and of every live node below it: the contribution of a node
  starts at the size of its registry, not at one, and the records of its live children
  are added to it.
\<close>

theorem collect_registered_nodes:
  "n_registered_nodes (fst (collect t)) = of_nat (registered_links t)
   \<and> n_registered_nodes (fst (collect (Node this hook elapsed nodes))) =
       of_nat (length nodes)
       + sum_list (map (\<lambda>p. n_registered_nodes (fst (collect p))) (live_children nodes))"
proof
  show "n_registered_nodes (fst (collect t)) = of_nat (registered_links t)"
  proof (induction t rule: registered_links.induct)
    case (1 this hook elapsed nodes)
    have own: "n_registered_nodes (fst (collect (Node this hook elapsed nodes))) =
          of_nat (length nodes)
          + sum_list (map (\<lambda>p. n_registered_nodes (fst (collect p))) (live_children nodes))"
      by (simp add: collect_info_fields(1) comp_def del: collect.simps)
    have children:
      "sum_list (map (\<lambda>p. n_registered_nodes (fst (collect p))) (live_children nodes)) =
       sum_list (map (\<lambda>p. of_nat (registered_links p)) (live_children nodes))"
      by (rule arg_cong [where f = sum_list]) (simp add: 1)
    show ?case
      unfolding own children by (simp add: of_nat_sum_list_map)
  qed
  show "n_registered_nodes (fst (collect (Node this hook elapsed nodes))) =
       of_nat (length nodes)
       + sum_list (map (\<lambda>p. n_registered_nodes (fst (collect p))) (live_children nodes))"
    by (simp add: collect_info_fields(1) comp_def del: collect.simps)
qed

theorem collect_registered_nodes_witness:
  "n_registered_nodes (fst (collect
      (Node idle_object quiet_hook 0
         [(''A'', Live (Node idle_object quiet_hook 0 [])), (''B'', Expired)]))) = 2"
  using collect_registered_nodes
    [where t = "Node idle_object quiet_hook 0
           [(''A'', Live (Node idle_object quiet_hook 0 [])), (''B'', Expired)]"
       and this = idle_object and hook = quiet_hook and elapsed = 0 and nodes = "[]"]
  by simp

text \<open>
  The count is not the number of live nodes: a root without children is one live node,
  and its record has \<open>n_registered_nodes = 0\<close>.
\<close>

theorem collect_registered_nodes_counterexample:
  "n_registered_nodes (fst (collect (Node idle_object quiet_hook 0 [])))
     \<noteq> of_nat (live_nodes (Node idle_object quiet_hook 0 []))"
  by (simp add: run_collect)

text \<open>
  C2, as the code has it. The record of every child whose reference locks is merged
  into the record of the parent by adding seven fields: the registered nodes, the
  publishing nodes, the invalid links, the published and the ignored measurements, the
  errors and the CPU time. The wall-clock time is not merged: the merge leaves it as it
  is, and \<open>collect\<close> sets it once, after the loop, to the duration of its own call.
\<close>

theorem collect_merges_child_info:
  fixes this :: "('c::{semiring_1, ord}, 't::semiring_1) MonitorableObject"
  shows
  "(let own = fst (try_generate_opmon_data hook this);
        child_infos = map (\<lambda>p. fst (collect p)) (live_children nodes);
        info = fst (collect (Node this hook elapsed nodes))
    in n_registered_nodes info = of_nat (length nodes) + sum_list (map n_registered_nodes child_infos)
     \<and> n_publishing_nodes info =
         (if 0 < m_published_counter own then 1 else 0) + sum_list (map n_publishing_nodes child_infos)
     \<and> n_invalid_links info =
         sum_list (map n_invalid_links child_infos)
         + of_nat (unat (of_nat (length (filter (\<lambda>(key, wp). expired wp) nodes)) :: 32 word))
     \<and> n_published_measurements info =
         m_published_counter own + sum_list (map n_published_measurements child_infos)
     \<and> n_ignored_measurements info =
         m_ignored_counter own + sum_list (map n_ignored_measurements child_infos)
     \<and> n_errors info = m_error_counter own + sum_list (map n_errors child_infos)
     \<and> cpu_elapsed_time_us info =
         m_cpu_us_counter own + sum_list (map cpu_elapsed_time_us child_infos)
     \<and> clockwall_elapsed_time_us info = elapsed)
   \<and> clockwall_elapsed_time_us (merge_child_info a b) = clockwall_elapsed_time_us a
   \<and> merge_child_info a b =
       a\<lparr>n_registered_nodes := n_registered_nodes a + n_registered_nodes b,
         n_publishing_nodes := n_publishing_nodes a + n_publishing_nodes b,
         n_invalid_links := n_invalid_links a + n_invalid_links b,
         n_published_measurements := n_published_measurements a + n_published_measurements b,
         n_ignored_measurements := n_ignored_measurements a + n_ignored_measurements b,
         n_errors := n_errors a + n_errors b,
         cpu_elapsed_time_us := cpu_elapsed_time_us a + cpu_elapsed_time_us b\<rparr>"
  unfolding Let_def
  by (intro conjI collect_info_fields merge_child_info_fields(8) merge_child_info_eq)

theorem collect_merges_child_info_witness:
  "(let info = fst (collect (Node idle_object
                     (\<lambda>this. (this\<lparr>m_published_counter := 2, m_cpu_us_counter := 30\<rparr>, [], None)) 7
                     [(''A'', Live (Node idle_object
                        (\<lambda>this. (this\<lparr>m_published_counter := 3, m_cpu_us_counter := 10\<rparr>, [], None))
                        5 []))]))
    in n_published_measurements info = 5 \<and> n_publishing_nodes info = 2
       \<and> cpu_elapsed_time_us info = 40 \<and> clockwall_elapsed_time_us info = 7)"
  using collect_merges_child_info
    [of "(\<lambda>this. (this\<lparr>m_published_counter := 2, m_cpu_us_counter := 30\<rparr>, [], None))"
        idle_object
        "[(''A'', Live (Node idle_object
              (\<lambda>this. (this\<lparr>m_published_counter := 3, m_cpu_us_counter := 10\<rparr>, [], None))
              5 []))]" 7]
  by (simp add: run_collect)

text \<open>
  The wall-clock time of the record is not a sum: merging a child whose call took 5
  microseconds leaves the field of the parent's record at 0, and a root whose call took 7
  microseconds returns 7 with this child, as it does without it.
\<close>

theorem collect_merges_child_info_counterexample:
  "clockwall_elapsed_time_us
     (merge_child_info (new_info :: (32 word, 64 word) MonitoringTreeInfo)
        (fst (collect (Node idle_object quiet_hook 5 []))))
     \<noteq> clockwall_elapsed_time_us (new_info :: (32 word, 64 word) MonitoringTreeInfo)
        + clockwall_elapsed_time_us (fst (collect (Node idle_object quiet_hook 5 [])))
   \<and> clockwall_elapsed_time_us
       (fst (collect (Node idle_object quiet_hook 7
                        [(''A'', Live (Node idle_object quiet_hook 5 []))])))
     \<noteq> clockwall_elapsed_time_us (fst (collect (Node idle_object quiet_hook 7 [])))
        + clockwall_elapsed_time_us (fst (collect (Node idle_object quiet_hook 5 [])))"
  by (simp add: run_collect)

text \<open>
  C4, as the code has it. The registry of a node after \<open>collect\<close> holds the entries
  that were not expired when the loop reached them, in their order, each child
  collected; the entries that were expired then are erased and each is counted once (in
  the 32-bit local counter) in \<open>n_invalid_links\<close>, next to the invalid links that the
  live children report. A retained entry is expired after the call exactly when the
  last owner of its child let go during the traversal; when no owner does, no expired
  entry is left. For a root with a live child \<open>a\<close> without children and an expired
  entry \<open>b\<close>, the record has \<open>n_invalid_links = 1\<close> and the registry has no entry for
  \<open>b\<close> afterwards.
\<close>

theorem collect_prunes_expired:
  fixes this :: "('c::{semiring_1, ord}, 't::semiring_1) MonitorableObject"
  shows
  "(let result = collect (Node this hook elapsed nodes);
        info = fst result;
        nodes' = m_nodes (fst (snd result))
    in nodes' = map (\<lambda>(key, wp). (key, after_collect wp))
                  (filter (\<lambda>(key, wp). \<not> expired wp) nodes)
     \<and> map fst nodes' = map fst (filter (\<lambda>(key, wp). \<not> expired wp) nodes)
     \<and> (\<forall>(key, wp) \<in> set nodes.
           \<not> expired wp \<longrightarrow>
             (key, after_collect wp) \<in> set nodes'
             \<and> expired (after_collect wp) = orphaned wp)
     \<and> ((\<forall>(key, wp) \<in> set nodes. \<not> orphaned wp) \<longrightarrow>
           (\<forall>(key, wp) \<in> set nodes'. \<not> expired wp))
     \<and> n_invalid_links info =
         sum_list (map (\<lambda>p. n_invalid_links (fst (collect p))) (live_children nodes))
         + of_nat (unat (of_nat (length (filter (\<lambda>(key, wp). expired wp) nodes)) :: 32 word)))
   \<and> (a \<noteq> b \<longrightarrow>
        (let R = Node this hook elapsed [(a, Live (Node this_a hook_a elapsed_a [])), (b, Expired)];
             R' = Node this hook elapsed [(b, Expired), (a, Live (Node this_a hook_a elapsed_a []))]
         in n_invalid_links (fst (collect R)) = 1
          \<and> map_of (m_nodes (fst (snd (collect R)))) b = None
          \<and> map fst (m_nodes (fst (snd (collect R)))) = [a]
          \<and> n_invalid_links (fst (collect R')) = 1
          \<and> map_of (m_nodes (fst (snd (collect R')))) b = None
          \<and> map fst (m_nodes (fst (snd (collect R')))) = [a]))"
proof (intro conjI impI)
  let ?kept = "filter (\<lambda>(key, wp). \<not> expired wp) nodes"
  let ?after = "map (\<lambda>(key, wp). (key, after_collect wp)) ?kept"
  have reg: "m_nodes (fst (snd (collect (Node this hook elapsed nodes)))) = ?after"
    by (rule collect_node_registry)
  have keys: "map fst ?after = map fst ?kept"
    by (simp add: case_prod_beta comp_def)
  have each: "\<forall>(key, wp) \<in> set nodes.
           \<not> expired wp \<longrightarrow>
             (key, after_collect wp) \<in> set ?after
             \<and> expired (after_collect wp) = orphaned wp"
    by (force simp: expired_after_collect)
  have quiet: "(\<forall>(key, wp) \<in> set nodes. \<not> orphaned wp) \<longrightarrow>
           (\<forall>(key, wp) \<in> set ?after. \<not> expired wp)"
    by (auto simp: expired_after_collect)
  have inv: "n_invalid_links (fst (collect (Node this hook elapsed nodes))) =
         sum_list (map (\<lambda>p. n_invalid_links (fst (collect p))) (live_children nodes))
         + of_nat (unat (of_nat (length (filter (\<lambda>(key, wp). expired wp) nodes)) :: 32 word))"
    by (simp add: collect_info_fields(3) comp_def del: collect.simps)
  show "let result = collect (Node this hook elapsed nodes);
        info = fst result;
        nodes' = m_nodes (fst (snd result))
    in nodes' = ?after
     \<and> map fst nodes' = map fst ?kept
     \<and> (\<forall>(key, wp) \<in> set nodes.
           \<not> expired wp \<longrightarrow>
             (key, after_collect wp) \<in> set nodes'
             \<and> expired (after_collect wp) = orphaned wp)
     \<and> ((\<forall>(key, wp) \<in> set nodes. \<not> orphaned wp) \<longrightarrow>
           (\<forall>(key, wp) \<in> set nodes'. \<not> expired wp))
     \<and> n_invalid_links info =
         sum_list (map (\<lambda>p. n_invalid_links (fst (collect p))) (live_children nodes))
         + of_nat (unat (of_nat (length (filter (\<lambda>(key, wp). expired wp) nodes)) :: 32 word))"
    unfolding Let_def reg using keys each quiet inv by blast
next
  assume "a \<noteq> b"
  then show "let R = Node this hook elapsed [(a, Live (Node this_a hook_a elapsed_a [])), (b, Expired)];
             R' = Node this hook elapsed [(b, Expired), (a, Live (Node this_a hook_a elapsed_a []))]
         in n_invalid_links (fst (collect R)) = 1
          \<and> map_of (m_nodes (fst (snd (collect R)))) b = None
          \<and> map fst (m_nodes (fst (snd (collect R)))) = [a]
          \<and> n_invalid_links (fst (collect R')) = 1
          \<and> map_of (m_nodes (fst (snd (collect R')))) b = None
          \<and> map fst (m_nodes (fst (snd (collect R')))) = [a]"
    unfolding Let_def
    by (simp add: collect_info_fields(3) collect_node_registry after_collect_def
          del: collect.simps)
qed

theorem collect_prunes_expired_witness:
  "n_invalid_links (fst (collect
      (Node idle_object quiet_hook 0
         [(''A'', Live (Node idle_object quiet_hook 0 [])), (''B'', Expired)]))) = 1
   \<and> map_of (m_nodes (fst (snd (collect
      (Node idle_object quiet_hook 0
         [(''A'', Live (Node idle_object quiet_hook 0 [])), (''B'', Expired)]))))) ''B'' = None
   \<and> m_nodes (fst (snd (collect
      (Node idle_object quiet_hook 0
         [(''A'', Live (Node idle_object quiet_hook 0 [])), (''B'', Expired)]))))
       = [(''A'', Live (Node idle_object quiet_hook 0 []))]
   \<and> expired (after_collect (Orphaned (Node idle_object quiet_hook 0 [])))"
  using collect_prunes_expired
    [of idle_object quiet_hook 0
        "[(''A'', Live (Node idle_object quiet_hook 0 [])), (''B'', Expired)]"
        "''A''" "''B''" idle_object quiet_hook 0]
    collect_prunes_expired
    [of idle_object quiet_hook 0
        "[(''A'', Orphaned (Node idle_object quiet_hook 0 []))]"
        "''A''" "''B''" idle_object quiet_hook 0]
  by (simp add: after_collect_def run_collect)

text \<open>
  An expired entry can be left: a child that is alive when the loop locks it, and whose
  last owner lets go of it during the traversal, keeps its entry, which is expired when
  \<open>collect\<close> returns and was not counted.
\<close>

theorem collect_prunes_expired_counterexample:
  "m_nodes (fst (snd (collect
      (Node idle_object quiet_hook 0 [(''A'', Orphaned (Node idle_object quiet_hook 0 []))]))))
     = [(''A'', Expired)]
   \<and> n_invalid_links (fst (collect
      (Node idle_object quiet_hook 0 [(''A'', Orphaned (Node idle_object quiet_hook 0 []))])))
     = 0"
  by (simp add: run_collect)

text \<open>
  C5. Whatever the hook throws is caught in \<open>collect\<close>: the \<^verbatim>\<open>try\<close> block has a result
  for every outcome of the hook and \<open>collect\<close> returns its record. An issue adds one to
  the error counter for every link of its cause chain, the issue itself and each cause;
  an issue without a cause, another exception or an unknown object adds exactly one.
  One \<open>ErrorWhileCollecting\<close> is reported, and the count arrives in \<open>n_errors\<close>.
\<close>

theorem collect_counts_hook_errors:
  fixes this :: "('c::{semiring_1, ord}, 't::semiring_1) MonitorableObject"
  assumes "hook this = (this1, events, thrown)"
  shows "(let (this2, events2) = try_generate_opmon_data hook this;
              raised = (case thrown of
                          None \<Rightarrow> 0
                        | Some (Thrown_Issue i) \<Rightarrow> of_nat (chain_length i)
                        | Some (Thrown_std_exception e) \<Rightarrow> 1
                        | Some Thrown_other \<Rightarrow> 1)
          in m_error_counter this2 = m_error_counter this1 + raised
           \<and> events2 = events @ (case thrown of
                                   None \<Rightarrow> []
                                 | Some x \<Rightarrow> [Ers_error (ErrorWhileCollecting (get_opmon_id this1) x)])
           \<and> n_errors (fst (collect (Node this hook elapsed nodes))) =
               m_error_counter this1 + raised
               + sum_list (map (\<lambda>p. n_errors (fst (collect p))) (live_children nodes)))
         \<and> (\<forall>w. thrown = Some (Thrown_Issue (Issue w None)) \<longrightarrow>
               m_error_counter (fst (try_generate_opmon_data hook this)) = m_error_counter this1 + 1)
         \<and> (\<forall>w w' c. thrown = Some (Thrown_Issue (Issue w (Some (Issue w' c)))) \<longrightarrow>
               m_error_counter (fst (try_generate_opmon_data hook this)) =
                 m_error_counter this1 + 1 + of_nat (chain_length (Issue w' c)))"
proof -
  have tried: "try_generate_opmon_data hook this =
      (this1\<lparr>m_error_counter := m_error_counter this1 +
                (case thrown of
                   None \<Rightarrow> 0
                 | Some (Thrown_Issue i) \<Rightarrow> of_nat (chain_length i)
                 | Some (Thrown_std_exception e) \<Rightarrow> 1
                 | Some Thrown_other \<Rightarrow> 1)\<rparr>,
       events @ (case thrown of
                   None \<Rightarrow> []
                 | Some x \<Rightarrow> [Ers_error (ErrorWhileCollecting (get_opmon_id this1) x)]))"
  proof (cases thrown)
    case None
    then show ?thesis using assms by (simp add: try_generate_opmon_data_def)
  next
    case (Some x)
    show ?thesis
    proof (cases x)
      case (Thrown_Issue i)
      obtain w c where i: "i = Issue w c" by (cases i)
      show ?thesis using assms unfolding Some Thrown_Issue i
        by (simp add: try_generate_opmon_data_def cause_loop_eq get_opmon_id_def add.assoc
              split: option.splits)
    next
      case (Thrown_std_exception e)
      then show ?thesis using assms Some
        by (simp add: try_generate_opmon_data_def get_opmon_id_def)
    next
      case Thrown_other
      then show ?thesis using assms Some
        by (simp add: try_generate_opmon_data_def get_opmon_id_def)
    qed
  qed
  show ?thesis
    unfolding Let_def
    by (simp add: tried collect_info_fields(6) comp_def add.assoc del: collect.simps)
qed

theorem collect_counts_hook_errors_witness:
  "n_errors (fst (collect
      (Node idle_object
         (\<lambda>this. (this, [], Some (Thrown_Issue
             (Issue ''top'' (Some (Issue ''middle'' (Some (Issue ''root'' None))))))))
         0 []))) = 3
   \<and> n_errors (fst (collect
      (Node idle_object (\<lambda>this. (this, [], Some (Thrown_Issue (Issue ''only'' None)))) 0 []))) = 1"
  using collect_counts_hook_errors
    [of "(\<lambda>this. (this, [], Some (Thrown_Issue
             (Issue ''top'' (Some (Issue ''middle'' (Some (Issue ''root'' None))))))))"
        idle_object idle_object "[]"
        "Some (Thrown_Issue (Issue ''top'' (Some (Issue ''middle'' (Some (Issue ''root'' None))))))"
        0 "[]"]
    collect_counts_hook_errors
    [of "(\<lambda>this. (this, [], Some (Thrown_Issue (Issue ''only'' None))))"
        idle_object idle_object "[]" "Some (Thrown_Issue (Issue ''only'' None))" 0 "[]"]
  by (simp add: Let_def split: prod.splits del: collect.simps)

section \<open>Properties of register_node\<close>

lemma map_of_map_assign: "map_of (map_assign k v xs) = (map_of xs)(k \<mapsto> v)"
  by (induction xs) (auto simp: fun_upd_twist)

lemma map_assign_keys: "fst ` set (map_assign k v xs) = insert k (fst ` set xs)"
  by (simp add: dom_map_of_conv_image_fst [symmetric] map_of_map_assign)

lemma map_assign_sorted:
  assumes "sorted (map fst xs)" and "distinct (map fst xs)"
  shows "sorted (map fst (map_assign k v xs)) \<and> distinct (map fst (map_assign k v xs))"
  using assms
proof (induction xs)
  case Nil
  then show ?case by simp
next
  case (Cons x xs)
  obtain k' v' where x: "x = (k', v')" by (cases x)
  from Cons show ?case unfolding x
    by (auto simp: map_assign_keys)
qed



end
